theory Spec2Isabelle
  imports Main "HOL-Library.Word"
begin

section \<open>Data model\<close>

text \<open>
  The controller of \<^verbatim>\<open>pkg/controller/hpa/hpa_controller.go\<close> reads
  HorizontalPodAutoscaler objects through a lister, derives two annotations from the
  metric specifications and writes the object back through the API client.  Only the
  fields the controller reads or writes are modelled; the remaining fields of the
  Kubernetes types live in the records' extension slots.

  A Go pointer that may be nil is an \<open>option\<close>; a Go map that may be nil is an
  optional partial function (\<open>None\<close> is the nil map, \<open>Some Map.empty\<close> an allocated
  empty map); \<open>int32\<close> is a 32-bit word read as two's complement.
\<close>

type_synonym int32 = "32 word"

record MetricTarget =
  AverageUtilization :: "int32 option"

record ResourceMetricSource =
  Name :: string
  Target :: MetricTarget

record MetricSpec =
  Type :: string
  Resource :: "ResourceMetricSource option"

record HorizontalPodAutoscalerSpec =
  Metrics :: "MetricSpec list"

record HorizontalPodAutoscaler =
  Namespace :: string
  ObjectName :: string
  Annotations :: "(string \<rightharpoonup> string) option"
  Spec :: HorizontalPodAutoscalerSpec

text \<open>The resource names \<^verbatim>\<open>v1.ResourceCPU\<close> and \<^verbatim>\<open>v1.ResourceMemory\<close> of the core API.\<close>

definition ResourceCPU :: string where
  "ResourceCPU = ''cpu''"

definition ResourceMemory :: string where
  "ResourceMemory = ''memory''"

text \<open>
  Go errors are values.  \<open>StatusNotFound\<close> is the API status error that
  \<^verbatim>\<open>errors.IsNotFound\<close> recognises, \<open>UnexpectedKeyFormat\<close> the error of
  \<^verbatim>\<open>cache.SplitMetaNamespaceKey\<close>, \<open>Errorf\<close> an error built by \<^verbatim>\<open>fmt.Errorf\<close>, and
  \<open>StatusError\<close> any other failure of the lister or of the API server.
\<close>

datatype error =
    StatusNotFound
  | UnexpectedKeyFormat string
  | Errorf string
  | StatusError string

fun IsNotFound :: "error \<Rightarrow> bool" where
  "IsNotFound StatusNotFound = True"
| "IsNotFound _ = False"

text \<open>A run-time panic of the Go program is a value as well.\<close>

datatype panic = NilPointerDereference

text \<open>
  The effects of the controller on its collaborators are recorded as a trace of calls:
  the remote update, the work queue's operations, the process-wide error sink
  (\<^verbatim>\<open>utilruntime.HandleError\<close>) and the worker goroutines started by \<open>Run\<close>.
\<close>

datatype event =
    UpdateCall string HorizontalPodAutoscaler
  | ForgetCall string
  | AddRateLimitedCall string
  | DoneCall string
  | HandleErrorCall error
  | ShutDownCall
  | GoWorker int

text \<open>
  The controller together with the collaborators it holds handles to:
  \<^item> \<open>hpaLister\<close>: the informer cache seen through the lister, by namespace and name;
  \<^item> \<open>client\<close>: the answer of the API server to an update, which may depend on the calls
    made so far (\<open>None\<close> is a nil error);
  \<^item> \<open>failures\<close>: the per-key requeue counter of the queue's rate limiter;
  \<^item> \<open>trace\<close>: the calls issued so far, oldest first.
\<close>

record HPAController =
  hpaLister :: "string \<Rightarrow> string \<Rightarrow> error + HorizontalPodAutoscaler"
  client :: "event list \<Rightarrow> string \<Rightarrow> HorizontalPodAutoscaler \<Rightarrow> error option"
  failures :: "string \<Rightarrow> nat"
  trace :: "event list"

definition maxRetries :: nat where
  "maxRetries = 15"

section \<open>Library functions used by the controller\<close>

subsection \<open>Formatting an \<open>int32\<close> with \<^verbatim>\<open>%d\<close>\<close>

fun decimal :: "nat \<Rightarrow> string" where
  "decimal n =
     (if n < 10 then [''0123456789'' ! n]
      else decimal (n div 10) @ [''0123456789'' ! (n mod 10)])"

declare decimal.simps [simp del]

definition Sprintf_d :: "int32 \<Rightarrow> string" where
  "Sprintf_d w =
     (let i = sint w
      in if i < 0 then CHR ''-'' # decimal (nat (- i)) else decimal (nat i))"

subsection \<open>Splitting a queue key\<close>

text \<open>
  \<^verbatim>\<open>strings.Split(key, "/")\<close> followed by the case distinction of
  \<^verbatim>\<open>cache.SplitMetaNamespaceKey\<close>: one part is a name without namespace, two parts
  are namespace and name, anything else is an error.
\<close>

fun Split :: "string \<Rightarrow> string list" where
  "Split [] = [[]]"
| "Split (c # cs) =
     (if c = CHR ''/'' then [] # Split cs
      else (case Split cs of
              [] \<Rightarrow> [[c]]
            | p # ps \<Rightarrow> (c # p) # ps))"

definition SplitMetaNamespaceKey :: "string \<Rightarrow> error + (string \<times> string)" where
  "SplitMetaNamespaceKey key =
     (case Split key of
        [name] \<Rightarrow> Inr ('''', name)
      | [namespace, name] \<Rightarrow> Inr (namespace, name)
      | _ \<Rightarrow> Inl (UnexpectedKeyFormat key))"

subsection \<open>The rate-limited work queue\<close>

text \<open>
  Modelled from the spec: the Work Queue of section 4.1 (the client-go
  \<^verbatim>\<open>workqueue.RateLimitingInterface\<close>, whose code is not part of the repository).
  \<open>numRequeues\<close> is the current retry counter of a key, \<open>forget\<close> resets it to zero,
  \<open>addRateLimited\<close> re-adds the key after a delay and counts the requeue, \<open>done\<close> marks
  the key as no longer processing.  Delays and the queued/processing sets are not
  modelled; every call is recorded in the trace.
\<close>

definition NumRequeues :: "HPAController \<Rightarrow> string \<Rightarrow> nat" where
  "NumRequeues v key = failures v key"

definition Forget :: "HPAController \<Rightarrow> string \<Rightarrow> HPAController" where
  "Forget v key =
     v\<lparr>failures := (failures v)(key := 0), trace := trace v @ [ForgetCall key]\<rparr>"

definition AddRateLimited :: "HPAController \<Rightarrow> string \<Rightarrow> HPAController" where
  "AddRateLimited v key =
     v\<lparr>failures := (failures v)(key := Suc (failures v key)),
       trace := trace v @ [AddRateLimitedCall key]\<rparr>"

definition Done :: "HPAController \<Rightarrow> string \<Rightarrow> HPAController" where
  "Done v key = v\<lparr>trace := trace v @ [DoneCall key]\<rparr>"

definition ShutDown :: "HPAController \<Rightarrow> HPAController" where
  "ShutDown v = v\<lparr>trace := trace v @ [ShutDownCall]\<rparr>"

definition HandleError :: "HPAController \<Rightarrow> error \<Rightarrow> HPAController" where
  "HandleError v err = v\<lparr>trace := trace v @ [HandleErrorCall err]\<rparr>"

section \<open>The controller\<close>

subsection \<open>\<open>annotations\<close>\<close>

text \<open>
  Reading \<^verbatim>\<open>*metric.Resource.Target.AverageUtilization\<close> panics when the pointer is
  nil.
\<close>

definition deref :: "'a option \<Rightarrow> panic + 'a" where
  "deref p = (case p of None \<Rightarrow> Inl NilPointerDereference | Some x \<Rightarrow> Inr x)"

text \<open>
  The body of the loop over \<^verbatim>\<open>hpa.Spec.Metrics\<close>: two consecutive \<^verbatim>\<open>if\<close>
  statements under the nil check of \<^verbatim>\<open>metric.Resource\<close>.
\<close>

definition annotate :: "(string \<rightharpoonup> string) \<Rightarrow> MetricSpec \<Rightarrow> panic + (string \<rightharpoonup> string)" where
  "annotate m metric =
     (case Resource metric of
        None \<Rightarrow> Inr m
      | Some r \<Rightarrow>
          (case (if Name r = ResourceCPU
                 then (case deref (AverageUtilization (Target r)) of
                         Inl p \<Rightarrow> Inl p
                       | Inr u \<Rightarrow> Inr (m(''cpuTargetUtilization'' \<mapsto> Sprintf_d u)))
                 else Inr m) of
             Inl p \<Rightarrow> Inl p
           | Inr m1 \<Rightarrow>
               (if Name r = ResourceMemory
                then (case deref (AverageUtilization (Target r)) of
                        Inl p \<Rightarrow> Inl p
                      | Inr u \<Rightarrow> Inr (m1(''memoryTargetValue'' \<mapsto> Sprintf_d u)))
                else Inr m1)))"

fun annotations_loop ::
  "(string \<rightharpoonup> string) \<Rightarrow> MetricSpec list \<Rightarrow> panic + (string \<rightharpoonup> string)" where
  "annotations_loop m [] = Inr m"
| "annotations_loop m (metric # rest) =
     (case annotate m metric of
        Inl p \<Rightarrow> Inl p
      | Inr m' \<Rightarrow> annotations_loop m' rest)"

definition annotations :: "HorizontalPodAutoscaler \<Rightarrow> panic + (string \<rightharpoonup> string) option" where
  "annotations hpa =
     (if length (Metrics (Spec hpa)) = 0 then Inr None
      else (case annotations_loop Map.empty (Metrics (Spec hpa)) of
              Inl p \<Rightarrow> Inl p
            | Inr m \<Rightarrow> Inr (Some m)))"

subsection \<open>\<open>syncHPA\<close>\<close>

text \<open>
  \<^verbatim>\<open>len(annotationsMaps) != 0\<close>: a nil map and an allocated map without entries both
  have length zero.
\<close>

definition nonempty :: "(string \<rightharpoonup> string) option \<Rightarrow> bool" where
  "nonempty am = (case am of None \<Rightarrow> False | Some m \<Rightarrow> dom m \<noteq> {})"

text \<open>
  The merge of lines 138--146: when something was computed, the copy's annotation map
  is allocated if it is nil and every computed entry is assigned into it.  A map holds
  one value per key, so the order in which \<^verbatim>\<open>range\<close> visits the entries does not
  matter and the loop is the right-biased union.
\<close>

definition merge ::
  "HorizontalPodAutoscaler \<Rightarrow> (string \<rightharpoonup> string) option \<Rightarrow> HorizontalPodAutoscaler" where
  "merge hpaCopyed annotationsMaps =
     (if nonempty annotationsMaps
      then hpaCopyed\<lparr>Annotations :=
             Some ((case Annotations hpaCopyed of None \<Rightarrow> Map.empty | Some a \<Rightarrow> a)
                   ++ (case annotationsMaps of None \<Rightarrow> Map.empty | Some m \<Rightarrow> m))\<rparr>
      else hpaCopyed)"

text \<open>
  \<open>Update\<close> is the call
  \<^verbatim>\<open>v.client.AutoscalingV2().HorizontalPodAutoscalers(ns).Update(...)\<close>: it is recorded
  in the trace and answered by the API server.
\<close>

definition Update ::
  "HPAController \<Rightarrow> string \<Rightarrow> HorizontalPodAutoscaler \<Rightarrow> error option \<times> HPAController" where
  "Update v namespace hpa =
     (client v (trace v) namespace hpa,
      v\<lparr>trace := trace v @ [UpdateCall namespace hpa]\<rparr>)"

text \<open>
  The reconcile function.  The result is the returned error (\<open>None\<close> is nil) and the
  controller's state afterwards, or a panic.  \<^verbatim>\<open>DeepCopy\<close> is the identity on
  values: the object held by the lister is never changed.  Logging is not modelled.
\<close>

definition syncHPA :: "HPAController \<Rightarrow> string \<Rightarrow> panic + (error option \<times> HPAController)" where
  "syncHPA v key =
     (case SplitMetaNamespaceKey key of
        Inl err \<Rightarrow> Inr (Some err, v)
      | Inr (namespace, name) \<Rightarrow>
          (case hpaLister v namespace name of
             Inl err \<Rightarrow> if IsNotFound err then Inr (None, v) else Inr (Some err, v)
           | Inr hpa \<Rightarrow>
               (let hpaCopyed = hpa
                in case annotations hpaCopyed of
                     Inl p \<Rightarrow> Inl p
                   | Inr annotationsMaps \<Rightarrow>
                       (let hpaCopyed' = merge hpaCopyed annotationsMaps
                        in Inr (Update v (Namespace hpaCopyed') hpaCopyed')))))"

subsection \<open>\<open>handleErr\<close> and \<open>processNextWorkItem\<close>\<close>

definition handleErr :: "HPAController \<Rightarrow> error option \<Rightarrow> string \<Rightarrow> HPAController" where
  "handleErr v err key =
     (case err of
        None \<Rightarrow> Forget v key
      | Some e \<Rightarrow>
          if NumRequeues v key < maxRetries then AddRateLimited v key
          else HandleError (Forget v key) e)"

text \<open>
  \<open>got\<close> is the pair returned by \<^verbatim>\<open>v.queue.Get()\<close>: the key and the shutdown flag.
  The deferred \<^verbatim>\<open>Done\<close> runs after \<open>handleErr\<close>.  A panic of \<open>syncHPA\<close> leaves the
  function; the state it leaves behind is not modelled.
\<close>

definition processNextWorkItem ::
  "HPAController \<Rightarrow> string \<times> bool \<Rightarrow> panic + (bool \<times> HPAController)" where
  "processNextWorkItem v got =
     (case got of
        (eKey, quit) \<Rightarrow>
          if quit then Inr (False, v)
          else (case syncHPA v eKey of
                  Inl p \<Rightarrow> Inl p
                | Inr (err, v') \<Rightarrow> Inr (True, Done (handleErr v' err eKey) eKey)))"

subsection \<open>\<open>Run\<close>\<close>

text \<open>
  The loop \<^verbatim>\<open>for i := 0; i < workers; i++ { go wait.Until(v.worker, ...) }\<close>; each
  iteration starts one worker goroutine.
\<close>

function launch :: "int \<Rightarrow> int \<Rightarrow> HPAController \<Rightarrow> HPAController" where
  "launch i workers v =
     (if i < workers then launch (i + 1) workers (v\<lparr>trace := trace v @ [GoWorker i]\<rparr>)
      else v)"
  by pat_completeness auto
termination
  by (relation "measure (\<lambda>(i, workers, v). nat (workers - i))") auto

declare launch.simps [simp del]

text \<open>
  \<open>synced\<close> is the result of \<^verbatim>\<open>cache.WaitForCacheSync(stopCh, v.hpaSynced)\<close>;
  \<open>stopped\<close> says whether the stop channel is ever closed.  The result is \<open>None\<close> when
  \<open>Run\<close> blocks forever on the stop channel, otherwise the returned error.  The
  deferred \<^verbatim>\<open>v.queue.ShutDown()\<close> runs when \<open>Run\<close> returns.
\<close>

definition Run :: "HPAController \<Rightarrow> int \<Rightarrow> bool \<Rightarrow> bool \<Rightarrow> error option option \<times> HPAController" where
  "Run v workers synced stopped =
     (if \<not> synced
      then (Some (Some (Errorf ''failed to wait for caches to sync'')), ShutDown v)
      else (let v' = launch 0 workers v
            in if stopped then (Some None, ShutDown v') else (None, v')))"

section \<open>Example objects\<close>

text \<open>Concrete objects and controllers at which the theorems below are instantiated.\<close>

definition resourceMetric :: "string \<Rightarrow> int32 option \<Rightarrow> MetricSpec" where
  "resourceMetric n u =
     \<lparr>Type = ''Resource'',
      Resource = Some \<lparr>Name = n, Target = \<lparr>AverageUtilization = u\<rparr>\<rparr>\<rparr>"

definition podsMetric :: MetricSpec where
  "podsMetric = \<lparr>Type = ''Pods'', Resource = None\<rparr>"

definition web :: "(string \<rightharpoonup> string) option \<Rightarrow> MetricSpec list \<Rightarrow> HorizontalPodAutoscaler" where
  "web a ms =
     \<lparr>Namespace = ''default'', ObjectName = ''web'', Annotations = a,
      Spec = \<lparr>Metrics = ms\<rparr>\<rparr>"

text \<open>
  A controller with fresh counters and an empty trace, whose cache holds the one object
  \<open>hpa\<close> and whose API server answers every update with \<open>answer\<close>.
\<close>

definition controller :: "HorizontalPodAutoscaler \<Rightarrow> error option \<Rightarrow> HPAController" where
  "controller hpa answer =
     \<lparr>hpaLister = (\<lambda>namespace name.
         if namespace = Namespace hpa \<and> name = ObjectName hpa then Inr hpa
         else Inl StatusNotFound),
      client = (\<lambda>calls namespace obj. answer),
      failures = (\<lambda>key. 0),
      trace = []\<rparr>"

section \<open>Facts about the library functions and the loops\<close>

lemma ResourceCPU_neq_ResourceMemory: "ResourceCPU \<noteq> ResourceMemory"
  by (simp add: ResourceCPU_def ResourceMemory_def)

text \<open>Consecutive failures of one key below the ceiling: each is a rate-limited requeue.\<close>

lemma handleErr_retry_iter:
  "failures v key + n \<le> maxRetries \<Longrightarrow>
   ((\<lambda>v. handleErr v (Some e) key) ^^ n) v
     = v\<lparr>failures := (failures v)(key := failures v key + n),
         trace := trace v @ replicate n (AddRateLimitedCall key)\<rparr>"
proof (induction n)
  case 0
  then show ?case by simp
next
  case (Suc n)
  let ?f = "\<lambda>v. handleErr v (Some e) key"
  let ?v' = "v\<lparr>failures := (failures v)(key := failures v key + n),
         trace := trace v @ replicate n (AddRateLimitedCall key)\<rparr>"
  have lt: "failures v key + n < maxRetries"
    using Suc.prems by simp
  have IH: "(?f ^^ n) v = ?v'"
    by (rule Suc.IH) (use lt in simp)
  have "(?f ^^ Suc n) v = handleErr ((?f ^^ n) v) (Some e) key"
    by simp
  also have "\<dots> = handleErr ?v' (Some e) key"
    by (simp only: IH)
  also have "\<dots> = AddRateLimited ?v' key"
    using lt by (simp add: handleErr_def NumRequeues_def)
  also have "\<dots> = v\<lparr>failures := (failures v)(key := failures v key + Suc n),
         trace := trace v @ replicate (Suc n) (AddRateLimitedCall key)\<rparr>"
    by (rule HPAController.equality)
      (simp_all add: AddRateLimited_def replicate_append_same fun_eq_iff)
  finally show ?case .
qed

text \<open>The worker loop of \<open>Run\<close> starts the workers \<open>i\<close>, ..., \<open>workers - 1\<close>.\<close>

lemma launch_trace:
  "launch i workers v = v\<lparr>trace := trace v @ map GoWorker [i..workers - 1]\<rparr>"
proof (induction i workers v rule: launch.induct)
  case (1 i workers v)
  show ?case
  proof (cases "i < workers")
    case True
    then have "[i..workers - 1] = i # [i + 1..workers - 1]"
      by (simp add: upto_rec1)
    with True "1.IH" show ?thesis
      by (subst launch.simps) simp
  next
    case False
    then show ?thesis
      by (subst launch.simps) simp
  qed
qed

lemma Run_synced:
  "Run v workers True stopped =
     (if stopped then Some None else None,
      v\<lparr>trace := trace v @ map GoWorker [0..workers - 1]
                  @ (if stopped then [ShutDownCall] else [])\<rparr>)"
  by (simp add: Run_def launch_trace ShutDown_def)

subsection \<open>One iteration of the loop of \<open>annotations\<close>\<close>

lemma annotate_no_resource: "Resource metric = None \<Longrightarrow> annotate m metric = Inr m"
  by (simp add: annotate_def)

lemma annotate_other_resource:
  "Resource metric = Some r \<Longrightarrow> Name r \<noteq> ResourceCPU \<Longrightarrow> Name r \<noteq> ResourceMemory \<Longrightarrow>
   annotate m metric = Inr m"
  by (simp add: annotate_def)

lemma annotate_cpu:
  "Resource metric = Some r \<Longrightarrow> Name r = ResourceCPU \<Longrightarrow>
   AverageUtilization (Target r) = Some u \<Longrightarrow>
   annotate m metric = Inr (m(''cpuTargetUtilization'' \<mapsto> Sprintf_d u))"
  by (simp add: annotate_def deref_def ResourceCPU_neq_ResourceMemory)

lemma annotate_memory:
  "Resource metric = Some r \<Longrightarrow> Name r = ResourceMemory \<Longrightarrow>
   AverageUtilization (Target r) = Some u \<Longrightarrow>
   annotate m metric = Inr (m(''memoryTargetValue'' \<mapsto> Sprintf_d u))"
  using ResourceCPU_neq_ResourceMemory by (simp add: annotate_def deref_def)

lemma annotate_nil_target:
  "Resource metric = Some r \<Longrightarrow> Name r = ResourceCPU \<or> Name r = ResourceMemory \<Longrightarrow>
   AverageUtilization (Target r) = None \<Longrightarrow>
   annotate m metric = Inl NilPointerDereference"
  by (auto simp add: annotate_def deref_def)

lemma annotate_returns_target:
  assumes "annotate m metric = Inr m'" and "Resource metric = Some r"
    and "Name r = ResourceCPU \<or> Name r = ResourceMemory"
  shows "\<exists>u. AverageUtilization (Target r) = Some u"
proof (cases "AverageUtilization (Target r)")
  case None
  from annotate_nil_target [OF assms(2,3) None, of m] assms(1) show ?thesis
    by simp
next
  case (Some u)
  then show ?thesis by blast
qed

text \<open>What one iteration returns, by the kind of the metric.\<close>

lemma annotate_Inr_cases:
  assumes "annotate m metric = Inr m'"
  obtains
    (skipped) "m' = m" "\<forall>r. Resource metric = Some r \<longrightarrow>
        Name r \<noteq> ResourceCPU \<and> Name r \<noteq> ResourceMemory"
  | (cpu) r u where "Resource metric = Some r" "Name r = ResourceCPU"
      "AverageUtilization (Target r) = Some u"
      "m' = m(''cpuTargetUtilization'' \<mapsto> Sprintf_d u)"
  | (memory) r u where "Resource metric = Some r" "Name r = ResourceMemory"
      "AverageUtilization (Target r) = Some u"
      "m' = m(''memoryTargetValue'' \<mapsto> Sprintf_d u)"
proof (cases "Resource metric")
  case None
  with assms annotate_no_resource [OF None, of m] skipped show ?thesis
    by simp
next
  case (Some r)
  consider "Name r = ResourceCPU" | "Name r = ResourceMemory"
    | "Name r \<noteq> ResourceCPU" "Name r \<noteq> ResourceMemory"
    by blast
  then show ?thesis
  proof cases
    case 1
    with annotate_returns_target [OF assms Some] obtain u where
      u: "AverageUtilization (Target r) = Some u" by blast
    from annotate_cpu [OF Some 1 u, of m] assms
    have "m' = m(''cpuTargetUtilization'' \<mapsto> Sprintf_d u)" by simp
    with Some 1 u cpu show ?thesis by blast
  next
    case 2
    with annotate_returns_target [OF assms Some] obtain u where
      u: "AverageUtilization (Target r) = Some u" by blast
    from annotate_memory [OF Some 2 u, of m] assms
    have "m' = m(''memoryTargetValue'' \<mapsto> Sprintf_d u)" by simp
    with Some 2 u memory show ?thesis by blast
  next
    case 3
    from annotate_other_resource [OF Some 3, of m] assms have "m' = m" by simp
    with Some 3 skipped show ?thesis by simp
  qed
qed

lemma annotate_written:
  assumes "(n, k) \<in> {(ResourceCPU, ''cpuTargetUtilization''), (ResourceMemory, ''memoryTargetValue'')}"
    and "annotate m metric = Inr m'" and "Resource metric = Some r" and "Name r = n"
  shows "\<exists>u. AverageUtilization (Target r) = Some u \<and> m' k = Some (Sprintf_d u)"
  using assms(2)
proof (cases rule: annotate_Inr_cases)
  case skipped
  with assms show ?thesis by auto
next
  case (cpu r' u)
  with assms ResourceCPU_neq_ResourceMemory show ?thesis by auto
next
  case (memory r' u)
  with assms ResourceCPU_neq_ResourceMemory show ?thesis by auto
qed

lemma annotate_untouched:
  assumes "(n, k) \<in> {(ResourceCPU, ''cpuTargetUtilization''), (ResourceMemory, ''memoryTargetValue'')}"
    and "annotate m metric = Inr m'" and "\<forall>r. Resource metric = Some r \<longrightarrow> Name r \<noteq> n"
  shows "m' k = m k"
  using assms(2)
proof (cases rule: annotate_Inr_cases)
  case skipped
  then show ?thesis by simp
next
  case (cpu r' u)
  with assms show ?thesis by auto
next
  case (memory r' u)
  with assms show ?thesis by auto
qed

lemma annotate_dom:
  assumes "annotate m metric = Inr m'"
  shows "dom m' \<subseteq> dom m \<union> {''cpuTargetUtilization'', ''memoryTargetValue''}"
  using assms by (cases rule: annotate_Inr_cases) auto

subsection \<open>The loop of \<open>annotations\<close>\<close>

lemma annotations_loop_append:
  "annotations_loop m (xs @ ys) =
     (case annotations_loop m xs of Inl p \<Rightarrow> Inl p | Inr m' \<Rightarrow> annotations_loop m' ys)"
  by (induction xs arbitrary: m) (auto split: sum.splits)

lemma annotations_loop_untouched:
  assumes "(n, k) \<in> {(ResourceCPU, ''cpuTargetUtilization''), (ResourceMemory, ''memoryTargetValue'')}"
  shows "annotations_loop m ms = Inr m' \<Longrightarrow>
    \<forall>metric\<in>set ms. \<forall>r. Resource metric = Some r \<longrightarrow> Name r \<noteq> n \<Longrightarrow> m' k = m k"
proof (induction ms arbitrary: m)
  case Nil
  then show ?case by simp
next
  case (Cons metric ms)
  from Cons.prems(1) obtain m1 where
    step: "annotate m metric = Inr m1" and rest: "annotations_loop m1 ms = Inr m'"
    by (auto split: sum.splits)
  from Cons.prems(2) have "m1 k = m k"
    using annotate_untouched [OF assms step] by simp
  moreover from Cons.prems(2) have "m' k = m1 k"
    using Cons.IH [OF rest] by simp
  ultimately show ?case by simp
qed

lemma annotations_loop_dom:
  "annotations_loop m ms = Inr m' \<Longrightarrow>
   dom m' \<subseteq> dom m \<union> {''cpuTargetUtilization'', ''memoryTargetValue''}"
proof (induction ms arbitrary: m)
  case Nil
  then show ?case by auto
next
  case (Cons metric ms)
  from Cons.prems obtain m1 where
    step: "annotate m metric = Inr m1" and rest: "annotations_loop m1 ms = Inr m'"
    by (auto split: sum.splits)
  from annotate_dom [OF step] Cons.IH [OF rest] show ?case by blast
qed

lemma annotations_loop_returns_part:
  "annotations_loop m ms = Inr m' \<Longrightarrow> metric \<in> set ms \<Longrightarrow> \<exists>m0 m1. annotate m0 metric = Inr m1"
proof (induction ms arbitrary: m)
  case Nil
  then show ?case by simp
next
  case (Cons x ms)
  from Cons.prems(1) obtain m1 where
    step: "annotate m x = Inr m1" and rest: "annotations_loop m1 ms = Inr m'"
    by (auto split: sum.splits)
  show ?case
  proof (cases "metric = x")
    case True
    with step show ?thesis by blast
  next
    case False
    with Cons.prems(2) have "metric \<in> set ms" by simp
    from Cons.IH [OF rest this] show ?thesis .
  qed
qed

text \<open>The value of a key after the loop is decided by the last metric of its kind.\<close>

lemma annotations_loop_last:
  assumes kind: "(n, k) \<in> {(ResourceCPU, ''cpuTargetUtilization''), (ResourceMemory, ''memoryTargetValue'')}"
    and loop: "annotations_loop m (before @ metric # after) = Inr m'"
    and res: "Resource metric = Some r" and name: "Name r = n"
    and after: "\<forall>x\<in>set after. \<forall>r'. Resource x = Some r' \<longrightarrow> Name r' \<noteq> n"
  shows "\<exists>u. AverageUtilization (Target r) = Some u \<and> m' k = Some (Sprintf_d u)"
proof -
  from loop obtain m1 where
    m1: "annotations_loop m before = Inr m1" and "annotations_loop m1 (metric # after) = Inr m'"
    by (auto simp: annotations_loop_append split: sum.splits)
  then obtain m2 where
    step: "annotate m1 metric = Inr m2" and rest: "annotations_loop m2 after = Inr m'"
    by (auto split: sum.splits)
  from annotate_written [OF kind step res name] obtain u where
    u: "AverageUtilization (Target r) = Some u" "m2 k = Some (Sprintf_d u)"
    by blast
  from annotations_loop_untouched [OF kind rest after] u show ?thesis by simp
qed

lemma last_of_kind:
  assumes "\<exists>x\<in>set ms. P x"
  shows "\<exists>before x after. ms = before @ x # after \<and> P x \<and> (\<forall>y\<in>set after. \<not> P y)"
  using assms split_list_last_prop [of ms P] by blast

lemma annotations_loop_origin:
  assumes kind: "(n, k) \<in> {(ResourceCPU, ''cpuTargetUtilization''), (ResourceMemory, ''memoryTargetValue'')}"
    and loop: "annotations_loop m ms = Inr m'"
    and some: "\<exists>x\<in>set ms. \<exists>r. Resource x = Some r \<and> Name r = n"
  shows "\<exists>x\<in>set ms. \<exists>r u. Resource x = Some r \<and> Name r = n \<and>
           AverageUtilization (Target r) = Some u \<and> m' k = Some (Sprintf_d u)"
proof -
  from last_of_kind [OF some] obtain before x after r where
    ms: "ms = before @ x # after" and r: "Resource x = Some r" "Name r = n"
    and after: "\<forall>y\<in>set after. \<not> (\<exists>r. Resource y = Some r \<and> Name r = n)"
    by blast
  from after have after': "\<forall>y\<in>set after. \<forall>r'. Resource y = Some r' \<longrightarrow> Name r' \<noteq> n"
    by blast
  from annotations_loop_last [OF kind loop [unfolded ms] r after'] obtain u where
    "AverageUtilization (Target r) = Some u" "m' k = Some (Sprintf_d u)"
    by blast
  with r ms show ?thesis
    by auto
qed

lemma annotations_loop_absent:
  assumes kind: "(n, k) \<in> {(ResourceCPU, ''cpuTargetUtilization''), (ResourceMemory, ''memoryTargetValue'')}"
    and loop: "annotations_loop m ms = Inr m'"
    and none: "\<not> (\<exists>x\<in>set ms. \<exists>r. Resource x = Some r \<and> Name r = n)"
  shows "m' k = m k"
proof -
  from none have "\<forall>x\<in>set ms. \<forall>r. Resource x = Some r \<longrightarrow> Name r \<noteq> n"
    by blast
  from annotations_loop_untouched [OF kind loop this] show ?thesis .
qed

lemma annotations_Inr:
  "annotations hpa = Inr am \<Longrightarrow>
   (Metrics (Spec hpa) = [] \<and> am = None) \<or>
   (Metrics (Spec hpa) \<noteq> [] \<and>
    (\<exists>m. am = Some m \<and> annotations_loop Map.empty (Metrics (Spec hpa)) = Inr m))"
  by (auto simp: annotations_def split: if_splits sum.splits)

text \<open>
  The loop returns, without a panic, when every cpu and memory resource metric has its
  average utilization set.
\<close>

lemma annotate_returns:
  assumes "\<forall>r. Resource metric = Some r \<and> (Name r = ResourceCPU \<or> Name r = ResourceMemory) \<longrightarrow>
             AverageUtilization (Target r) \<noteq> None"
  shows "\<exists>m'. annotate m metric = Inr m'"
proof (cases "Resource metric")
  case None
  then show ?thesis
    by (simp add: annotate_no_resource)
next
  case (Some r)
  consider "Name r = ResourceCPU" | "Name r = ResourceMemory"
    | "Name r \<noteq> ResourceCPU" "Name r \<noteq> ResourceMemory"
    by blast
  then show ?thesis
  proof cases
    case 1
    with assms Some obtain u where "AverageUtilization (Target r) = Some u"
      by auto
    from annotate_cpu [OF Some 1 this] show ?thesis
      by blast
  next
    case 2
    with assms Some obtain u where "AverageUtilization (Target r) = Some u"
      by auto
    from annotate_memory [OF Some 2 this] show ?thesis
      by blast
  next
    case 3
    from annotate_other_resource [OF Some 3] show ?thesis
      by blast
  qed
qed

lemma annotations_loop_returns:
  assumes "\<forall>metric\<in>set ms. \<forall>r.
             Resource metric = Some r \<and> (Name r = ResourceCPU \<or> Name r = ResourceMemory) \<longrightarrow>
             AverageUtilization (Target r) \<noteq> None"
  shows "\<exists>m'. annotations_loop m ms = Inr m'"
  using assms
proof (induction ms arbitrary: m)
  case Nil
  then show ?case by simp
next
  case (Cons metric ms)
  from Cons.prems have "\<forall>r. Resource metric = Some r \<and>
      (Name r = ResourceCPU \<or> Name r = ResourceMemory) \<longrightarrow> AverageUtilization (Target r) \<noteq> None"
    by simp
  from annotate_returns [OF this] obtain m1 where step: "annotate m metric = Inr m1"
    by blast
  from Cons.prems have "\<forall>metric\<in>set ms. \<forall>r.
             Resource metric = Some r \<and> (Name r = ResourceCPU \<or> Name r = ResourceMemory) \<longrightarrow>
             AverageUtilization (Target r) \<noteq> None"
    by simp
  from Cons.IH [OF this] obtain m' where "annotations_loop m1 ms = Inr m'"
    by blast
  with step show ?case
    by simp
qed

lemma annotations_returns:
  assumes "\<forall>metric\<in>set (Metrics (Spec hpa)). \<forall>r.
             Resource metric = Some r \<and> (Name r = ResourceCPU \<or> Name r = ResourceMemory) \<longrightarrow>
             AverageUtilization (Target r) \<noteq> None"
  shows "\<exists>am. annotations hpa = Inr am"
proof -
  from annotations_loop_returns [OF assms] obtain m where
    "annotations_loop Map.empty (Metrics (Spec hpa)) = Inr m"
    by blast
  then show ?thesis
    by (simp add: annotations_def)
qed

subsection \<open>The decimal notation written by \<open>Sprintf_d\<close>\<close>

text \<open>
  The digits written by \<open>decimal\<close> are decimal digits, and read back in base ten they
  give the number.
\<close>

lemma digit_value:
  assumes "d < 10"
  shows "of_char (''0123456789'' ! d) = 48 + d" and "''0123456789'' ! d \<in> set ''0123456789''"
proof -
  from assms have "d = 0 \<or> d = 1 \<or> d = 2 \<or> d = 3 \<or> d = 4
    \<or> d = 5 \<or> d = 6 \<or> d = 7 \<or> d = 8 \<or> d = 9"
    by arith
  then show "of_char (''0123456789'' ! d) = 48 + d"
    by (elim disjE) simp_all
  from assms show "''0123456789'' ! d \<in> set ''0123456789''"
    by (intro nth_mem) simp
qed

lemma decimal_value_acc:
  "foldl (\<lambda>a c. 10 * a + (of_char c - 48)) a (decimal n) = 10 ^ length (decimal n) * a + n"
proof (induction n arbitrary: a rule: decimal.induct)
  case (1 n)
  show ?case
  proof (cases "n < 10")
    case True
    then show ?thesis
      by (subst (1 2) decimal.simps) (simp add: digit_value)
  next
    case False
    then have d: "decimal n = decimal (n div 10) @ [''0123456789'' ! (n mod 10)]"
      by (subst decimal.simps) simp
    have "n mod 10 < 10" by simp
    with False "1.IH" [of a] show ?thesis
      by (simp add: d digit_value algebra_simps)
  qed
qed

lemma decimal_value: "foldl (\<lambda>a c. 10 * a + (of_char c - 48)) 0 (decimal n) = n"
  using decimal_value_acc [of 0 n] by simp

lemma decimal_digits: "set (decimal n) \<subseteq> set ''0123456789''"
proof (induction n rule: decimal.induct)
  case (1 n)
  show ?case
  proof (cases "n < 10")
    case True
    then have "decimal n = [''0123456789'' ! n]"
      by (subst decimal.simps) simp
    with digit_value(2) [OF True] show ?thesis
      by simp
  next
    case False
    then have "decimal n = decimal (n div 10) @ [''0123456789'' ! (n mod 10)]"
      by (subst decimal.simps) simp
    moreover have "''0123456789'' ! (n mod 10) \<in> set ''0123456789''"
      by (rule digit_value(2)) simp
    ultimately show ?thesis
      using False "1.IH" by simp
  qed
qed

text \<open>
  So \<open>Sprintf_d\<close> writes the decimal digits of a non-negative value, and a minus sign
  followed by the decimal digits of the magnitude of a negative one.
\<close>

lemma Sprintf_d_value:
  "0 \<le> sint w \<Longrightarrow>
     set (Sprintf_d w) \<subseteq> set ''0123456789'' \<and>
     foldl (\<lambda>a c. 10 * a + (of_char c - 48)) 0 (Sprintf_d w) = nat (sint w)"
  "sint w < 0 \<Longrightarrow>
     hd (Sprintf_d w) = CHR ''-'' \<and>
     set (tl (Sprintf_d w)) \<subseteq> set ''0123456789'' \<and>
     foldl (\<lambda>a c. 10 * a + (of_char c - 48)) 0 (tl (Sprintf_d w)) = nat (- sint w)"
  using decimal_digits decimal_value by (simp_all add: Sprintf_d_def)

lemma Sprintf_d_examples:
  "Sprintf_d 80 = ''80''" "Sprintf_d 70 = ''70''" "Sprintf_d 60 = ''60''"
  by (simp_all add: Sprintf_d_def decimal.simps)

subsection \<open>A sync that finds its object\<close>

lemma Namespace_merge: "Namespace (merge hpa am) = Namespace hpa"
  by (simp add: merge_def)

lemma syncHPA_found:
  assumes "SplitMetaNamespaceKey key = Inr (namespace, name)"
    and "hpaLister v namespace name = Inr hpa"
    and "annotations hpa = Inr am"
  shows "syncHPA v key
    = Inr (client v (trace v) (Namespace hpa) (merge hpa am),
           v\<lparr>trace := trace v @ [UpdateCall (Namespace hpa) (merge hpa am)]\<rparr>)"
  using assms by (simp add: syncHPA_def Update_def Namespace_merge Let_def)

lemma merge_computed:
  assumes "dom m \<noteq> {}"
  shows "merge hpa (Some m)
    = hpa\<lparr>Annotations := Some ((case Annotations hpa of None \<Rightarrow> Map.empty | Some a \<Rightarrow> a) ++ m)\<rparr>"
  using assms by (simp add: merge_def nonempty_def)

lemma annotate_kind:
  assumes "(n, k) \<in> {(ResourceCPU, ''cpuTargetUtilization''), (ResourceMemory, ''memoryTargetValue'')}"
    and "Resource metric = Some r" and "Name r = n"
    and "AverageUtilization (Target r) = Some u"
  shows "annotate m metric = Inr (m(k \<mapsto> Sprintf_d u))"
proof -
  from assms(1) consider "n = ResourceCPU" "k = ''cpuTargetUtilization''"
    | "n = ResourceMemory" "k = ''memoryTargetValue''"
    by auto
  then show ?thesis
  proof cases
    case 1
    with assms annotate_cpu [of metric r u m] show ?thesis by simp
  next
    case 2
    with assms annotate_memory [of metric r u m] show ?thesis by simp
  qed
qed

subsection \<open>Resources whose cpu and memory targets are all set\<close>

text \<open>
  The loop reaches its end only on a resource whose cpu and memory resource metrics all
  have their average utilization set.
\<close>

lemma annotations_returns_only_if:
  assumes "annotations hpa = Inr am" and "metric \<in> set (Metrics (Spec hpa))"
    and "Resource metric = Some r" and "Name r = ResourceCPU \<or> Name r = ResourceMemory"
  shows "AverageUtilization (Target r) \<noteq> None"
proof -
  from assms(2) have "Metrics (Spec hpa) \<noteq> []"
    by auto
  with annotations_Inr [OF assms(1)] obtain m where
    "annotations_loop Map.empty (Metrics (Spec hpa)) = Inr m"
    by blast
  from annotations_loop_returns_part [OF this assms(2)] obtain m0 m1 where
    "annotate m0 metric = Inr m1"
    by blast
  from annotate_returns_target [OF this assms(3,4)] show ?thesis
    by simp
qed

text \<open>
  On such a resource the loop does reach its end (\<open>annotations_returns\<close>).
  There \<open>annotations\<close> returns an allocated map with no keys but
  \<open>cpuTargetUtilization\<close> and \<open>memoryTargetValue\<close>; the iteration of every metric of a
  kind writes the metric's formatted target under the kind's key, and the map holds the
  formatted target of one of them.
\<close>

lemma annotations_if_targets_set:
  assumes "Metrics (Spec hpa) \<noteq> []"
    and "\<forall>metric\<in>set (Metrics (Spec hpa)). \<forall>r.
        Resource metric = Some r \<and> (Name r = ResourceCPU \<or> Name r = ResourceMemory) \<longrightarrow>
        AverageUtilization (Target r) \<noteq> None"
  shows "\<exists>m. annotations hpa = Inr (Some m) \<and>
    dom m \<subseteq> {''cpuTargetUtilization'', ''memoryTargetValue''} \<and>
    (\<forall>(n, k)\<in>{(ResourceCPU, ''cpuTargetUtilization''), (ResourceMemory, ''memoryTargetValue'')}.
       (\<forall>metric\<in>set (Metrics (Spec hpa)). \<forall>r.
          Resource metric = Some r \<and> Name r = n \<longrightarrow>
          (\<exists>u. AverageUtilization (Target r) = Some u \<and>
               (\<forall>m0. annotate m0 metric = Inr (m0(k \<mapsto> Sprintf_d u))))) \<and>
       ((\<exists>metric\<in>set (Metrics (Spec hpa)). \<exists>r. Resource metric = Some r \<and> Name r = n) \<longrightarrow>
        (\<exists>metric\<in>set (Metrics (Spec hpa)). \<exists>r u.
           Resource metric = Some r \<and> Name r = n \<and>
           AverageUtilization (Target r) = Some u \<and> m k = Some (Sprintf_d u))) \<and>
       (\<not> (\<exists>metric\<in>set (Metrics (Spec hpa)). \<exists>r. Resource metric = Some r \<and> Name r = n) \<longrightarrow>
        m k = None)) \<and>
    (\<forall>v key namespace name metric r.
       SplitMetaNamespaceKey key = Inr (namespace, name) \<and>
       hpaLister v namespace name = Inr hpa \<and>
       Metrics (Spec hpa) = [metric] \<and>
       Resource metric = Some r \<and> Name r = ResourceCPU \<and>
       AverageUtilization (Target r) = Some 80 \<longrightarrow>
       (\<exists>new.
          syncHPA v key
            = Inr (client v (trace v) (Namespace hpa) (hpa\<lparr>Annotations := Some new\<rparr>),
                   v\<lparr>trace := trace v
                        @ [UpdateCall (Namespace hpa) (hpa\<lparr>Annotations := Some new\<rparr>)]\<rparr>) \<and>
          new ''cpuTargetUtilization'' = Some ''80''))"
proof -
  let ?ms = "Metrics (Spec hpa)"
  let ?kinds = "{(ResourceCPU, ''cpuTargetUtilization''), (ResourceMemory, ''memoryTargetValue'')}"
  from annotations_returns [OF assms(2)] obtain am where "annotations hpa = Inr am"
    by blast
  with annotations_Inr [of hpa am] assms(1) obtain m where
    ann: "annotations hpa = Inr (Some m)"
    and loop: "annotations_loop Map.empty ?ms = Inr m"
    by blast
  from annotations_loop_dom [OF loop]
  have dom: "dom m \<subseteq> {''cpuTargetUtilization'', ''memoryTargetValue''}"
    by simp
  have each: "\<forall>metric\<in>set ?ms. \<forall>r.
          Resource metric = Some r \<and> Name r = n \<longrightarrow>
          (\<exists>u. AverageUtilization (Target r) = Some u \<and>
               (\<forall>m0. annotate m0 metric = Inr (m0(k \<mapsto> Sprintf_d u))))"
    if kind: "(n, k) \<in> ?kinds" for n k
  proof (intro ballI allI impI, elim conjE)
    fix metric r
    assume metric: "metric \<in> set ?ms" and r: "Resource metric = Some r" and n: "Name r = n"
    from annotations_loop_returns_part [OF loop metric] obtain m0 m1 where
      "annotate m0 metric = Inr m1"
      by blast
    moreover from kind n have "Name r = ResourceCPU \<or> Name r = ResourceMemory"
      by auto
    ultimately obtain u where u: "AverageUtilization (Target r) = Some u"
      using annotate_returns_target [of m0 metric m1 r] r by blast
    have "\<forall>m0. annotate m0 metric = Inr (m0(k \<mapsto> Sprintf_d u))"
      using annotate_kind [OF kind r n u] by blast
    with u show "\<exists>u. AverageUtilization (Target r) = Some u \<and>
               (\<forall>m0. annotate m0 metric = Inr (m0(k \<mapsto> Sprintf_d u)))"
      by blast
  qed
  have final: "(\<exists>metric\<in>set ?ms. \<exists>r. Resource metric = Some r \<and> Name r = n) \<longrightarrow>
        (\<exists>metric\<in>set ?ms. \<exists>r u.
           Resource metric = Some r \<and> Name r = n \<and>
           AverageUtilization (Target r) = Some u \<and> m k = Some (Sprintf_d u))"
    if kind: "(n, k) \<in> ?kinds" for n k
    using annotations_loop_origin [OF kind loop] by blast
  have absent: "\<not> (\<exists>metric\<in>set ?ms. \<exists>r. Resource metric = Some r \<and> Name r = n) \<longrightarrow> m k = None"
    if kind: "(n, k) \<in> ?kinds" for n k
    using annotations_loop_absent [OF kind loop] by simp
  have kinds: "\<forall>(n, k)\<in>?kinds.
       (\<forall>metric\<in>set ?ms. \<forall>r.
          Resource metric = Some r \<and> Name r = n \<longrightarrow>
          (\<exists>u. AverageUtilization (Target r) = Some u \<and>
               (\<forall>m0. annotate m0 metric = Inr (m0(k \<mapsto> Sprintf_d u))))) \<and>
       ((\<exists>metric\<in>set ?ms. \<exists>r. Resource metric = Some r \<and> Name r = n) \<longrightarrow>
        (\<exists>metric\<in>set ?ms. \<exists>r u.
           Resource metric = Some r \<and> Name r = n \<and>
           AverageUtilization (Target r) = Some u \<and> m k = Some (Sprintf_d u))) \<and>
       (\<not> (\<exists>metric\<in>set ?ms. \<exists>r. Resource metric = Some r \<and> Name r = n) \<longrightarrow>
        m k = None)"
  proof (rule ballI)
    fix x
    assume x: "x \<in> ?kinds"
    obtain n k where nk: "x = (n, k)"
      by (cases x)
    from x nk have kind: "(n, k) \<in> ?kinds"
      by simp
    from each [OF kind] final [OF kind] absent [OF kind]
    show "case x of (n, k) \<Rightarrow>
       (\<forall>metric\<in>set ?ms. \<forall>r.
          Resource metric = Some r \<and> Name r = n \<longrightarrow>
          (\<exists>u. AverageUtilization (Target r) = Some u \<and>
               (\<forall>m0. annotate m0 metric = Inr (m0(k \<mapsto> Sprintf_d u))))) \<and>
       ((\<exists>metric\<in>set ?ms. \<exists>r. Resource metric = Some r \<and> Name r = n) \<longrightarrow>
        (\<exists>metric\<in>set ?ms. \<exists>r u.
           Resource metric = Some r \<and> Name r = n \<and>
           AverageUtilization (Target r) = Some u \<and> m k = Some (Sprintf_d u))) \<and>
       (\<not> (\<exists>metric\<in>set ?ms. \<exists>r. Resource metric = Some r \<and> Name r = n) \<longrightarrow>
        m k = None)"
      unfolding nk prod.case by (intro conjI)
  qed
  have example: "\<forall>v key namespace name metric r.
       SplitMetaNamespaceKey key = Inr (namespace, name) \<and>
       hpaLister v namespace name = Inr hpa \<and>
       Metrics (Spec hpa) = [metric] \<and>
       Resource metric = Some r \<and> Name r = ResourceCPU \<and>
       AverageUtilization (Target r) = Some 80 \<longrightarrow>
       (\<exists>new.
          syncHPA v key
            = Inr (client v (trace v) (Namespace hpa) (hpa\<lparr>Annotations := Some new\<rparr>),
                   v\<lparr>trace := trace v
                        @ [UpdateCall (Namespace hpa) (hpa\<lparr>Annotations := Some new\<rparr>)]\<rparr>) \<and>
          new ''cpuTargetUtilization'' = Some ''80'')"
  proof (intro allI impI, elim conjE)
    fix v :: HPAController and key namespace name metric r
    assume split: "SplitMetaNamespaceKey key = Inr (namespace, name)"
      and lookup: "hpaLister v namespace name = Inr hpa"
      and ms: "Metrics (Spec hpa) = [metric]"
      and r: "Resource metric = Some r" "Name r = ResourceCPU"
      and u: "AverageUtilization (Target r) = Some 80"
    let ?new = "(case Annotations hpa of None \<Rightarrow> Map.empty | Some a \<Rightarrow> a) ++ m"
    from loop ms have "annotate Map.empty metric = Inr m"
      by (simp split: sum.splits)
    with annotate_cpu [OF r u, of Map.empty]
    have m: "m = [''cpuTargetUtilization'' \<mapsto> ''80'']"
      by (simp add: Sprintf_d_examples)
    then have ne: "dom m \<noteq> {}"
      by simp
    have "syncHPA v key
            = Inr (client v (trace v) (Namespace hpa) (hpa\<lparr>Annotations := Some ?new\<rparr>),
                   v\<lparr>trace := trace v
                        @ [UpdateCall (Namespace hpa) (hpa\<lparr>Annotations := Some ?new\<rparr>)]\<rparr>)"
      using syncHPA_found [OF split lookup ann] merge_computed [OF ne, of hpa] by simp
    moreover have "?new ''cpuTargetUtilization'' = Some ''80''"
      by (simp add: m)
    ultimately show "\<exists>new.
          syncHPA v key
            = Inr (client v (trace v) (Namespace hpa) (hpa\<lparr>Annotations := Some new\<rparr>),
                   v\<lparr>trace := trace v
                        @ [UpdateCall (Namespace hpa) (hpa\<lparr>Annotations := Some new\<rparr>)]\<rparr>) \<and>
          new ''cpuTargetUtilization'' = Some ''80''"
      by (intro exI [of _ ?new] conjI)
  qed
  show ?thesis
    by (rule exI [of _ m]) (intro conjI ann dom kinds example)
qed

text \<open>
  On such a resource the last metric of a kind, in list order, decides the value under
  the kind's key.
\<close>

lemma annotations_last_if_targets_set:
  assumes "(n, k) \<in> {(ResourceCPU, ''cpuTargetUtilization''), (ResourceMemory, ''memoryTargetValue'')}"
    and "Metrics (Spec hpa) = before @ metric # after"
    and "Resource metric = Some r" and "Name r = n"
    and "\<forall>x\<in>set after. \<forall>r'. Resource x = Some r' \<longrightarrow> Name r' \<noteq> n"
    and "\<forall>metric\<in>set (Metrics (Spec hpa)). \<forall>r.
        Resource metric = Some r \<and> (Name r = ResourceCPU \<or> Name r = ResourceMemory) \<longrightarrow>
        AverageUtilization (Target r) \<noteq> None"
  shows "\<exists>m u. annotations hpa = Inr (Some m) \<and>
    AverageUtilization (Target r) = Some u \<and> m k = Some (Sprintf_d u)"
proof -
  from annotations_returns [OF assms(6)] obtain am where "annotations hpa = Inr am"
    by blast
  moreover from assms(2) have "Metrics (Spec hpa) \<noteq> []"
    by simp
  ultimately obtain m where
    m: "annotations hpa = Inr (Some m)"
    and "annotations_loop Map.empty (Metrics (Spec hpa)) = Inr m"
    using annotations_Inr [of hpa am] by blast
  then have loop: "annotations_loop Map.empty (before @ metric # after) = Inr m"
    by (simp add: assms(2))
  from annotations_loop_last [OF assms(1) loop assms(3,4,5)] m show ?thesis
    by blast
qed

text \<open>
  On such a resource two syncs in succession both return and issue the same update.
\<close>

lemma syncHPA_twice_if_targets_set:
  assumes "SplitMetaNamespaceKey key = Inr (namespace, name)"
    and "hpaLister v namespace name = Inr hpa"
    and "\<forall>metric\<in>set (Metrics (Spec hpa)). \<forall>r.
        Resource metric = Some r \<and> (Name r = ResourceCPU \<or> Name r = ResourceMemory) \<longrightarrow>
        AverageUtilization (Target r) \<noteq> None"
  shows "\<exists>am e1 v1 e2 v2.
    annotations hpa = Inr am \<and>
    syncHPA v key = Inr (e1, v1) \<and> syncHPA v1 key = Inr (e2, v2) \<and>
    hpaLister v1 = hpaLister v \<and>
    trace v1 = trace v @ [UpdateCall (Namespace hpa) (merge hpa am)] \<and>
    trace v2 = trace v @ [UpdateCall (Namespace hpa) (merge hpa am),
                          UpdateCall (Namespace hpa) (merge hpa am)]"
proof -
  from annotations_returns [OF assms(3)] obtain am where ann: "annotations hpa = Inr am"
    by blast
  let ?u = "UpdateCall (Namespace hpa) (merge hpa am)"
  let ?v1 = "v\<lparr>trace := trace v @ [?u]\<rparr>"
  have first: "syncHPA v key = Inr (client v (trace v) (Namespace hpa) (merge hpa am), ?v1)"
    by (rule syncHPA_found [OF assms(1,2) ann])
  have lookup1: "hpaLister ?v1 namespace name = Inr hpa"
    using assms(2) by simp
  have second: "syncHPA ?v1 key
    = Inr (client ?v1 (trace ?v1) (Namespace hpa) (merge hpa am),
           ?v1\<lparr>trace := trace ?v1 @ [?u]\<rparr>)"
    by (rule syncHPA_found [OF assms(1) lookup1 ann])
  from ann first second show ?thesis
    by simp
qed

section \<open>The claims\<close>

text \<open>
  Claim C1, as amended.  For a resource with zero metrics whose key splits and whose
  lookup succeeds, \<open>annotations\<close> returns the nil map and \<open>syncHPA\<close> leaves the copy
  as it is, but still issues one remote update with the unchanged copy and returns
  whatever the update returns: success exactly when the API server accepts the update.
\<close>

theorem syncHPA_zero_metrics:
  assumes "SplitMetaNamespaceKey key = Inr (namespace, name)"
    and "hpaLister v namespace name = Inr hpa"
    and "length (Metrics (Spec hpa)) = 0"
  shows "annotations hpa = Inr None \<and>
    syncHPA v key
      = Inr (client v (trace v) (Namespace hpa) hpa,
             v\<lparr>trace := trace v @ [UpdateCall (Namespace hpa) hpa]\<rparr>)"
  using assms
  by (simp add: syncHPA_def annotations_def merge_def nonempty_def Update_def)

theorem syncHPA_zero_metrics_witness:
  "SplitMetaNamespaceKey ''default/web'' = Inr (''default'', ''web'') \<and>
   hpaLister (controller (web None []) None) ''default'' ''web'' = Inr (web None []) \<and>
   length (Metrics (Spec (web None []))) = 0 \<and>
   annotations (web None []) = Inr None \<and>
   syncHPA (controller (web None []) None) ''default/web''
     = Inr (None, (controller (web None []) None)
                    \<lparr>trace := [UpdateCall ''default'' (web None [])]\<rparr>)"
proof -
  let ?c = "controller (web None []) None"
  have split: "SplitMetaNamespaceKey ''default/web'' = Inr (''default'', ''web'')"
    by (simp add: SplitMetaNamespaceKey_def)
  have lookup: "hpaLister ?c ''default'' ''web'' = Inr (web None [])"
    by (simp add: controller_def web_def)
  have zero: "length (Metrics (Spec (web None []))) = 0"
    by (simp add: web_def)
  have c: "client ?c = (\<lambda>calls namespace obj. None)" and t: "trace ?c = []"
    by (simp_all add: controller_def)
  have n: "Namespace (web None []) = ''default''"
    by (simp add: web_def)
  show ?thesis
    using split lookup zero syncHPA_zero_metrics [OF split lookup zero]
    by (simp add: c t n)
qed

text \<open>
  The claim as stated fails: for the object \<open>web None []\<close> without metrics the sync
  does not leave the controller as it found it, for the update is issued; and when the
  API server rejects the update the sync returns that error.
\<close>

theorem syncHPA_zero_metrics_counterexample:
  "length (Metrics (Spec (web None []))) = 0 \<and>
   syncHPA (controller (web None []) None) ''default/web''
     \<noteq> Inr (None, controller (web None []) None) \<and>
   syncHPA (controller (web None []) None) ''default/web''
     = Inr (None, (controller (web None []) None)
                    \<lparr>trace := [UpdateCall ''default'' (web None [])]\<rparr>) \<and>
   syncHPA (controller (web None []) (Some (StatusError ''conflict''))) ''default/web''
     = Inr (Some (StatusError ''conflict''),
            (controller (web None []) (Some (StatusError ''conflict'')))
              \<lparr>trace := [UpdateCall ''default'' (web None [])]\<rparr>)"
  by (simp add: syncHPA_def SplitMetaNamespaceKey_def controller_def web_def annotations_def
      merge_def nonempty_def Update_def Let_def)

text \<open>
  Claim C2.  A resource metric for cpu or memory whose target has no average
  utilization (for instance a target of type \<open>AverageValue\<close>) is not skipped: the
  dereference of the nil pointer panics, and the panic leaves \<open>syncHPA\<close> and
  \<open>processNextWorkItem\<close>.  Metrics of other kinds and resource metrics of other names
  are skipped, with or without a target (\<open>annotate_no_resource\<close>,
  \<open>annotate_other_resource\<close>): a resource with only such metrics gets an allocated map
  without entries.
\<close>

theorem annotations_nil_target_panics:
  "annotations (web None [podsMetric, resourceMetric ''ephemeral-storage'' None])
     = Inr (Some Map.empty) \<and>
   annotations (web None [resourceMetric ResourceCPU None]) = Inl NilPointerDereference \<and>
   annotations (web None [resourceMetric ResourceMemory None]) = Inl NilPointerDereference \<and>
   syncHPA (controller (web None [resourceMetric ResourceCPU None]) None) ''default/web''
     = Inl NilPointerDereference \<and>
   processNextWorkItem (controller (web None [resourceMetric ResourceCPU None]) None)
       (''default/web'', False)
     = Inl NilPointerDereference"
  by (simp add: processNextWorkItem_def syncHPA_def SplitMetaNamespaceKey_def controller_def
      web_def annotations_def annotate_def deref_def resourceMetric_def podsMetric_def
      ResourceCPU_def ResourceMemory_def Let_def)

text \<open>
  Claim C3.  The claim is about every resource with at least one metric.  For the
  resource whose only metric is a cpu metric with target 80 the computed map is
  \<open>cpuTargetUtilization = "80"\<close> and \<open>syncHPA\<close> issues the update with it.  But when a
  memory metric without average utilization follows the same cpu metric, the loop
  panics at the memory metric: no map is returned, the value computed for cpu is lost,
  and \<open>syncHPA\<close> issues no update.  For the resources on which the loop returns the
  claim holds (\<open>annotations_if_targets_set\<close>, \<open>Sprintf_d_value\<close>).
\<close>

theorem annotations_panics_after_cpu_target:
  "annotations (web None [resourceMetric ResourceCPU (Some 80)])
     = Inr (Some [''cpuTargetUtilization'' \<mapsto> ''80'']) \<and>
   syncHPA (controller (web None [resourceMetric ResourceCPU (Some 80)]) None) ''default/web''
     = Inr (None,
            (controller (web None [resourceMetric ResourceCPU (Some 80)]) None)
              \<lparr>trace := [UpdateCall ''default''
                 (web (Some [''cpuTargetUtilization'' \<mapsto> ''80''])
                    [resourceMetric ResourceCPU (Some 80)])]\<rparr>) \<and>
   annotations (web None [resourceMetric ResourceCPU (Some 80),
                          resourceMetric ResourceMemory None])
     = Inl NilPointerDereference \<and>
   syncHPA (controller (web None [resourceMetric ResourceCPU (Some 80),
                                  resourceMetric ResourceMemory None]) None) ''default/web''
     = Inl NilPointerDereference"
  by (simp add: syncHPA_def SplitMetaNamespaceKey_def controller_def web_def annotations_def
      annotate_def deref_def resourceMetric_def ResourceCPU_def ResourceMemory_def
      merge_def nonempty_def Update_def Sprintf_d_def decimal.simps Let_def)

text \<open>
  Claim C4.  When a sync of \<open>key\<close> fails and the retry counter has reached
  \<open>maxRetries = 15\<close>, \<open>handleErr\<close> calls \<open>Forget\<close>, which resets the counter to zero,
  and hands the error to \<open>HandleError\<close>; it does not call \<open>AddRateLimited\<close>.  Below
  the ceiling the key is re-added with \<open>AddRateLimited\<close>.  Hence sixteen consecutive
  failures of a fresh key give fifteen rate-limited requeues, then the drop, and leave
  the counter at zero.
\<close>

theorem handleErr_retry_ceiling:
  "(maxRetries \<le> NumRequeues v key \<longrightarrow>
      handleErr v (Some e) key
        = v\<lparr>failures := (failures v)(key := 0),
            trace := trace v @ [ForgetCall key, HandleErrorCall e]\<rparr>) \<and>
   (NumRequeues v key < maxRetries \<longrightarrow>
      handleErr v (Some e) key
        = v\<lparr>failures := (failures v)(key := Suc (failures v key)),
            trace := trace v @ [AddRateLimitedCall key]\<rparr>) \<and>
   (NumRequeues v key = 0 \<longrightarrow>
      ((\<lambda>v. handleErr v (Some e) key) ^^ 15) v
        = v\<lparr>failures := (failures v)(key := 15),
            trace := trace v @ replicate 15 (AddRateLimitedCall key)\<rparr> \<and>
      ((\<lambda>v. handleErr v (Some e) key) ^^ 16) v
        = v\<lparr>failures := (failures v)(key := 0),
            trace := trace v @ replicate 15 (AddRateLimitedCall key)
                      @ [ForgetCall key, HandleErrorCall e]\<rparr>)"
proof (intro conjI impI)
  assume "maxRetries \<le> NumRequeues v key"
  then show "handleErr v (Some e) key
        = v\<lparr>failures := (failures v)(key := 0),
            trace := trace v @ [ForgetCall key, HandleErrorCall e]\<rparr>"
    by (simp add: handleErr_def Forget_def HandleError_def)
next
  assume "NumRequeues v key < maxRetries"
  then show "handleErr v (Some e) key
        = v\<lparr>failures := (failures v)(key := Suc (failures v key)),
            trace := trace v @ [AddRateLimitedCall key]\<rparr>"
    by (simp add: handleErr_def AddRateLimited_def)
next
  assume z: "NumRequeues v key = 0"
  then have "failures v key + 15 \<le> maxRetries"
    by (simp add: NumRequeues_def maxRetries_def)
  from handleErr_retry_iter [OF this, of e] z
  show fifteen: "((\<lambda>v. handleErr v (Some e) key) ^^ 15) v
        = v\<lparr>failures := (failures v)(key := 15),
            trace := trace v @ replicate 15 (AddRateLimitedCall key)\<rparr>"
    by (simp add: NumRequeues_def)
  have "((\<lambda>v. handleErr v (Some e) key) ^^ 16) v
      = handleErr (((\<lambda>v. handleErr v (Some e) key) ^^ 15) v) (Some e) key"
    by (simp add: numeral_eq_Suc)
  also have "\<dots> = v\<lparr>failures := (failures v)(key := 0),
            trace := trace v @ replicate 15 (AddRateLimitedCall key)
                      @ [ForgetCall key, HandleErrorCall e]\<rparr>"
    unfolding fifteen
    by (simp add: handleErr_def NumRequeues_def maxRetries_def Forget_def HandleError_def)
  finally show "((\<lambda>v. handleErr v (Some e) key) ^^ 16) v
        = v\<lparr>failures := (failures v)(key := 0),
            trace := trace v @ replicate 15 (AddRateLimitedCall key)
                      @ [ForgetCall key, HandleErrorCall e]\<rparr>" .
qed

theorem handleErr_retry_ceiling_witness:
  "maxRetries \<le> NumRequeues ((controller (web None []) None)\<lparr>failures := (\<lambda>key. 15)\<rparr>) ''default/web'' \<and>
   handleErr ((controller (web None []) None)\<lparr>failures := (\<lambda>key. 15)\<rparr>)
       (Some (StatusError ''conflict'')) ''default/web''
     = (controller (web None []) None)
         \<lparr>failures := (\<lambda>key. 15)(''default/web'' := 0),
           trace := [ForgetCall ''default/web'', HandleErrorCall (StatusError ''conflict'')]\<rparr> \<and>
   NumRequeues (controller (web None []) None) ''default/web'' = 0 \<and>
   NumRequeues (controller (web None []) None) ''default/web'' < maxRetries \<and>
   handleErr (controller (web None []) None) (Some (StatusError ''conflict'')) ''default/web''
     = (controller (web None []) None)
         \<lparr>failures := (\<lambda>key. 0)(''default/web'' := 1),
           trace := [AddRateLimitedCall ''default/web'']\<rparr> \<and>
   ((\<lambda>v. handleErr v (Some (StatusError ''conflict'')) ''default/web'') ^^ 16)
       (controller (web None []) None)
     = (controller (web None []) None)
         \<lparr>failures := (\<lambda>key. 0)(''default/web'' := 0),
           trace := replicate 15 (AddRateLimitedCall ''default/web'')
                    @ [ForgetCall ''default/web'', HandleErrorCall (StatusError ''conflict'')]\<rparr>"
proof -
  let ?c = "controller (web None []) None"
  let ?full = "?c\<lparr>failures := (\<lambda>key. 15)\<rparr>"
  have full: "maxRetries \<le> NumRequeues ?full ''default/web''"
    by (simp add: NumRequeues_def maxRetries_def)
  have fresh: "NumRequeues ?c ''default/web'' = 0"
    by (simp add: NumRequeues_def controller_def)
  have few: "NumRequeues ?c ''default/web'' < maxRetries"
    by (simp add: fresh maxRetries_def)
  have f: "failures ?c = (\<lambda>key. 0)" and t: "trace ?c = []"
    by (simp_all add: controller_def)
  show ?thesis
    using full fresh few
      handleErr_retry_ceiling [of ?full "''default/web''" "StatusError ''conflict''"]
      handleErr_retry_ceiling [of ?c "''default/web''" "StatusError ''conflict''"]
    by (simp add: f t)
qed

text \<open>
  Claim C5.  When the key splits and the lister answers not-found, \<open>syncHPA\<close> returns
  nil and the controller is unchanged: in particular the trace gains no update call.
\<close>

theorem syncHPA_not_found:
  assumes "SplitMetaNamespaceKey key = Inr (namespace, name)"
    and "hpaLister v namespace name = Inl err"
    and "IsNotFound err"
  shows "syncHPA v key = Inr (None, v)"
  using assms by (simp add: syncHPA_def)

theorem syncHPA_not_found_witness:
  "SplitMetaNamespaceKey ''default/gone'' = Inr (''default'', ''gone'') \<and>
   hpaLister (controller (web None []) None) ''default'' ''gone'' = Inl StatusNotFound \<and>
   IsNotFound StatusNotFound \<and>
   syncHPA (controller (web None []) None) ''default/gone''
     = Inr (None, controller (web None []) None)"
proof -
  have split: "SplitMetaNamespaceKey ''default/gone'' = Inr (''default'', ''gone'')"
    by (simp add: SplitMetaNamespaceKey_def)
  have lookup: "hpaLister (controller (web None []) None) ''default'' ''gone'' = Inl StatusNotFound"
    by (simp add: controller_def web_def)
  have nf: "IsNotFound StatusNotFound"
    by simp
  show ?thesis
    using split lookup nf syncHPA_not_found [OF split lookup nf] by simp
qed

text \<open>
  Claim C6.  When \<open>annotations\<close> computed at least one entry, the object sent in the
  update is the looked-up object with an allocated annotation map \<open>new\<close> (also when the
  object had none): every computed key holds its computed value in \<open>new\<close>, and every
  other key holds what the object's map held before (nothing, when there was no map).  For
  a cpu metric with target 70 followed by a memory metric with target 60, \<open>new\<close> holds
  \<open>cpuTargetUtilization = "70"\<close> and \<open>memoryTargetValue = "60"\<close> and every other key
  is as before.
\<close>

theorem syncHPA_merges_annotations:
  assumes "SplitMetaNamespaceKey key = Inr (namespace, name)"
    and "hpaLister v namespace name = Inr hpa"
    and "annotations hpa = Inr (Some m)"
    and "dom m \<noteq> {}"
  shows "\<exists>new.
    syncHPA v key
      = Inr (client v (trace v) (Namespace hpa) (hpa\<lparr>Annotations := Some new\<rparr>),
             v\<lparr>trace := trace v @ [UpdateCall (Namespace hpa) (hpa\<lparr>Annotations := Some new\<rparr>)]\<rparr>) \<and>
    (\<forall>k x. m k = Some x \<longrightarrow> new k = Some x) \<and>
    (\<forall>k. m k = None \<longrightarrow>
       new k = (case Annotations hpa of None \<Rightarrow> None | Some old \<Rightarrow> old k)) \<and>
    (\<forall>c d rc rd.
       Metrics (Spec hpa) = [c, d] \<and>
       Resource c = Some rc \<and> Name rc = ResourceCPU \<and>
       AverageUtilization (Target rc) = Some 70 \<and>
       Resource d = Some rd \<and> Name rd = ResourceMemory \<and>
       AverageUtilization (Target rd) = Some 60 \<longrightarrow>
       new ''cpuTargetUtilization'' = Some ''70'' \<and>
       new ''memoryTargetValue'' = Some ''60'' \<and>
       (\<forall>k. k \<noteq> ''cpuTargetUtilization'' \<and> k \<noteq> ''memoryTargetValue'' \<longrightarrow>
          new k = (case Annotations hpa of None \<Rightarrow> None | Some old \<Rightarrow> old k)))"
proof -
  let ?old = "case Annotations hpa of None \<Rightarrow> Map.empty | Some a \<Rightarrow> a"
  let ?new = "?old ++ m"
  have sync: "syncHPA v key
      = Inr (client v (trace v) (Namespace hpa) (hpa\<lparr>Annotations := Some ?new\<rparr>),
             v\<lparr>trace := trace v @ [UpdateCall (Namespace hpa) (hpa\<lparr>Annotations := Some ?new\<rparr>)]\<rparr>)"
    using syncHPA_found [OF assms(1,2,3)] merge_computed [OF assms(4), of hpa] by simp
  have computed: "\<forall>k x. m k = Some x \<longrightarrow> ?new k = Some x"
    by (simp add: map_add_def)
  have kept: "\<forall>k. m k = None \<longrightarrow>
       ?new k = (case Annotations hpa of None \<Rightarrow> None | Some old \<Rightarrow> old k)"
    by (simp add: map_add_def split: option.splits)
  have example: "\<forall>c d rc rd.
       Metrics (Spec hpa) = [c, d] \<and>
       Resource c = Some rc \<and> Name rc = ResourceCPU \<and>
       AverageUtilization (Target rc) = Some 70 \<and>
       Resource d = Some rd \<and> Name rd = ResourceMemory \<and>
       AverageUtilization (Target rd) = Some 60 \<longrightarrow>
       ?new ''cpuTargetUtilization'' = Some ''70'' \<and>
       ?new ''memoryTargetValue'' = Some ''60'' \<and>
       (\<forall>k. k \<noteq> ''cpuTargetUtilization'' \<and> k \<noteq> ''memoryTargetValue'' \<longrightarrow>
          ?new k = (case Annotations hpa of None \<Rightarrow> None | Some old \<Rightarrow> old k))"
  proof (intro allI impI, elim conjE)
    fix c d rc rd
    assume ms: "Metrics (Spec hpa) = [c, d]"
      and c: "Resource c = Some rc" "Name rc = ResourceCPU"
      and c70: "AverageUtilization (Target rc) = Some 70"
      and d: "Resource d = Some rd" "Name rd = ResourceMemory"
      and d60: "AverageUtilization (Target rd) = Some 60"
    from annotations_Inr [OF assms(3)] ms
    have loop: "annotations_loop Map.empty [c, d] = Inr m"
      by simp
    have kc: "(ResourceCPU, ''cpuTargetUtilization'')
        \<in> {(ResourceCPU, ''cpuTargetUtilization''), (ResourceMemory, ''memoryTargetValue'')}"
      and km: "(ResourceMemory, ''memoryTargetValue'')
        \<in> {(ResourceCPU, ''cpuTargetUtilization''), (ResourceMemory, ''memoryTargetValue'')}"
      by simp_all
    have loopc: "annotations_loop Map.empty ([] @ c # [d]) = Inr m"
      and loopd: "annotations_loop Map.empty ([c] @ d # []) = Inr m"
      using loop by simp_all
    have afterc: "\<forall>x\<in>set [d]. \<forall>r'. Resource x = Some r' \<longrightarrow> Name r' \<noteq> ResourceCPU"
      using d ResourceCPU_neq_ResourceMemory by simp
    have afterd: "\<forall>x\<in>set []. \<forall>r'. Resource x = Some r' \<longrightarrow> Name r' \<noteq> ResourceMemory"
      by simp
    from annotations_loop_last [OF kc loopc c afterc] c70
    have cpu: "m ''cpuTargetUtilization'' = Some ''70''"
      by (simp add: Sprintf_d_examples)
    from annotations_loop_last [OF km loopd d afterd] d60
    have memory: "m ''memoryTargetValue'' = Some ''60''"
      by (simp add: Sprintf_d_examples)
    from annotations_loop_dom [OF loop]
    have rest: "\<forall>k. k \<noteq> ''cpuTargetUtilization'' \<and> k \<noteq> ''memoryTargetValue'' \<longrightarrow> m k = None"
      by auto
    from cpu memory have "?new ''cpuTargetUtilization'' = Some ''70''"
      and "?new ''memoryTargetValue'' = Some ''60''"
      by (simp_all add: map_add_def)
    moreover from rest have "\<forall>k. k \<noteq> ''cpuTargetUtilization'' \<and> k \<noteq> ''memoryTargetValue'' \<longrightarrow>
          ?new k = (case Annotations hpa of None \<Rightarrow> None | Some old \<Rightarrow> old k)"
      by (simp add: map_add_def split: option.splits)
    ultimately show "?new ''cpuTargetUtilization'' = Some ''70'' \<and>
       ?new ''memoryTargetValue'' = Some ''60'' \<and>
       (\<forall>k. k \<noteq> ''cpuTargetUtilization'' \<and> k \<noteq> ''memoryTargetValue'' \<longrightarrow>
          ?new k = (case Annotations hpa of None \<Rightarrow> None | Some old \<Rightarrow> old k))"
      by (intro conjI)
  qed
  show ?thesis
    by (rule exI [of _ ?new]) (intro conjI sync computed kept example)
qed

theorem syncHPA_merges_annotations_witness:
  "SplitMetaNamespaceKey ''default/web'' = Inr (''default'', ''web'') \<and>
   hpaLister (controller (web (Some [''owner'' \<mapsto> ''team-a'', ''cpuTargetUtilization'' \<mapsto> ''10''])
                [resourceMetric ResourceCPU (Some 70), resourceMetric ResourceMemory (Some 60)])
              None) ''default'' ''web''
     = Inr (web (Some [''owner'' \<mapsto> ''team-a'', ''cpuTargetUtilization'' \<mapsto> ''10''])
              [resourceMetric ResourceCPU (Some 70), resourceMetric ResourceMemory (Some 60)]) \<and>
   annotations (web (Some [''owner'' \<mapsto> ''team-a'', ''cpuTargetUtilization'' \<mapsto> ''10''])
                  [resourceMetric ResourceCPU (Some 70), resourceMetric ResourceMemory (Some 60)])
     = Inr (Some [''cpuTargetUtilization'' \<mapsto> ''70'', ''memoryTargetValue'' \<mapsto> ''60'']) \<and>
   dom [''cpuTargetUtilization'' \<mapsto> ''70'', ''memoryTargetValue'' \<mapsto> ''60''] \<noteq> {} \<and>
   (\<exists>new.
      syncHPA (controller (web (Some [''owner'' \<mapsto> ''team-a'', ''cpuTargetUtilization'' \<mapsto> ''10''])
                 [resourceMetric ResourceCPU (Some 70), resourceMetric ResourceMemory (Some 60)])
               None) ''default/web''
        = Inr (None,
               (controller (web (Some [''owner'' \<mapsto> ''team-a'', ''cpuTargetUtilization'' \<mapsto> ''10''])
                  [resourceMetric ResourceCPU (Some 70), resourceMetric ResourceMemory (Some 60)])
                None)
                 \<lparr>trace := [UpdateCall ''default''
                    ((web (Some [''owner'' \<mapsto> ''team-a'', ''cpuTargetUtilization'' \<mapsto> ''10''])
                        [resourceMetric ResourceCPU (Some 70),
                         resourceMetric ResourceMemory (Some 60)])
                       \<lparr>Annotations := Some new\<rparr>)]\<rparr>) \<and>
      new ''cpuTargetUtilization'' = Some ''70'' \<and>
      new ''memoryTargetValue'' = Some ''60'' \<and>
      new ''owner'' = Some ''team-a'')"
proof -
  let ?old = "[''owner'' \<mapsto> ''team-a'', ''cpuTargetUtilization'' \<mapsto> ''10'']"
  let ?m = "[''cpuTargetUtilization'' \<mapsto> ''70'', ''memoryTargetValue'' \<mapsto> ''60'']"
  let ?hpa = "web (Some ?old)
                [resourceMetric ResourceCPU (Some 70), resourceMetric ResourceMemory (Some 60)]"
  let ?c = "controller ?hpa None"
  have split: "SplitMetaNamespaceKey ''default/web'' = Inr (''default'', ''web'')"
    by (simp add: SplitMetaNamespaceKey_def)
  have lookup: "hpaLister ?c ''default'' ''web'' = Inr ?hpa"
    by (simp add: controller_def web_def)
  have run: "annotations ?hpa = Inr (Some ?m)"
    by (simp add: annotations_def web_def annotate_def deref_def resourceMetric_def
        ResourceCPU_def ResourceMemory_def Sprintf_d_def decimal.simps)
  have ne: "dom ?m \<noteq> {}"
    by simp
  have c: "client ?c = (\<lambda>calls namespace obj. None)" and t: "trace ?c = []"
    by (simp_all add: controller_def)
  have n: "Namespace ?hpa = ''default''" and a: "Annotations ?hpa = Some ?old"
    by (simp_all add: web_def)
  from syncHPA_merges_annotations [OF split lookup run ne] obtain new where
    sync: "syncHPA ?c ''default/web''
      = Inr (client ?c (trace ?c) (Namespace ?hpa) (?hpa\<lparr>Annotations := Some new\<rparr>),
             ?c\<lparr>trace := trace ?c @ [UpdateCall (Namespace ?hpa) (?hpa\<lparr>Annotations := Some new\<rparr>)]\<rparr>)"
    and computed: "\<forall>k x. ?m k = Some x \<longrightarrow> new k = Some x"
    and kept: "\<forall>k. ?m k = None \<longrightarrow>
       new k = (case Annotations ?hpa of None \<Rightarrow> None | Some old \<Rightarrow> old k)"
    by (elim exE conjE)
  from sync have sync': "syncHPA ?c ''default/web''
      = Inr (None, ?c\<lparr>trace := [UpdateCall ''default'' (?hpa\<lparr>Annotations := Some new\<rparr>)]\<rparr>)"
    by (simp only: c t n append_Nil)
  have "?m ''cpuTargetUtilization'' = Some ''70''"
    by simp
  with computed have cpu: "new ''cpuTargetUtilization'' = Some ''70''"
    by blast
  have "?m ''memoryTargetValue'' = Some ''60''"
    by simp
  with computed have memory: "new ''memoryTargetValue'' = Some ''60''"
    by blast
  have "?m ''owner'' = None"
    by simp
  with kept have "new ''owner'' = (case Annotations ?hpa of None \<Rightarrow> None | Some old \<Rightarrow> old ''owner'')"
    by blast
  then have owner: "new ''owner'' = Some ''team-a''"
    by (simp add: a)
  from sync' cpu memory owner have "\<exists>new.
      syncHPA ?c ''default/web''
        = Inr (None, ?c\<lparr>trace := [UpdateCall ''default'' (?hpa\<lparr>Annotations := Some new\<rparr>)]\<rparr>) \<and>
      new ''cpuTargetUtilization'' = Some ''70'' \<and>
      new ''memoryTargetValue'' = Some ''60'' \<and>
      new ''owner'' = Some ''team-a''"
    by (intro exI [of _ new] conjI)
  with split lookup run ne show ?thesis
    by (intro conjI)
qed

text \<open>
  Claim C7.  When \<open>WaitForCacheSync\<close> reports failure, \<open>Run\<close> returns the error
  ``failed to wait for caches to sync''; the only call it makes is the deferred
  \<open>ShutDown\<close> of the queue, so no worker goroutine is started (contrast
  \<open>Run_synced\<close>) and nothing is reconciled.
\<close>

theorem Run_cache_not_synced:
  "Run v workers False stopped =
     (Some (Some (Errorf ''failed to wait for caches to sync'')),
      v\<lparr>trace := trace v @ [ShutDownCall]\<rparr>)"
  by (simp add: Run_def ShutDown_def)

text \<open>
  Claim C8.  The claim is about every unchanged resource with at least one
  resource-type metric.  For a resource whose one metric is a cpu metric with target 80,
  and whose annotations already hold the computed value, sync issues the update with
  the same object again.  But for a resource whose one resource-type metric is a cpu
  metric without average utilization, the first sync already panics and issues no
  update, so there are no two update calls.  For the resources on which the loop
  returns the claim holds (\<open>syncHPA_twice_if_targets_set\<close>).
\<close>

theorem syncHPA_panics_before_update:
  "syncHPA (controller (web (Some [''cpuTargetUtilization'' \<mapsto> ''80''])
              [resourceMetric ResourceCPU (Some 80)]) None) ''default/web''
     = Inr (None,
            (controller (web (Some [''cpuTargetUtilization'' \<mapsto> ''80''])
               [resourceMetric ResourceCPU (Some 80)]) None)
              \<lparr>trace := [UpdateCall ''default''
                 (web (Some [''cpuTargetUtilization'' \<mapsto> ''80''])
                    [resourceMetric ResourceCPU (Some 80)])]\<rparr>) \<and>
   Resource (resourceMetric ResourceCPU None) \<noteq> None \<and>
   hpaLister (controller (web None [resourceMetric ResourceCPU None]) None) ''default'' ''web''
     = Inr (web None [resourceMetric ResourceCPU None]) \<and>
   syncHPA (controller (web None [resourceMetric ResourceCPU None]) None) ''default/web''
     = Inl NilPointerDereference"
  by (simp add: syncHPA_def SplitMetaNamespaceKey_def controller_def web_def annotations_def
      annotate_def deref_def resourceMetric_def ResourceCPU_def ResourceMemory_def
      merge_def nonempty_def Update_def Sprintf_d_def decimal.simps Let_def)

text \<open>
  Claim C9.  The claim is about every resource with more than one resource-type metric
  of one kind.  For two cpu metrics with targets 50 and 90 the computed value is that of
  the last one, \<open>"90"\<close>.  But when the first of the two cpu metrics has no average
  utilization, the loop panics at it and the target 90 of the last cpu metric is never
  computed.  For the resources on which the loop returns the claim holds
  (\<open>annotations_last_if_targets_set\<close>).
\<close>

theorem annotations_panics_before_last_metric:
  "annotations (web None [resourceMetric ResourceCPU (Some 50),
                          resourceMetric ResourceCPU (Some 90)])
     = Inr (Some [''cpuTargetUtilization'' \<mapsto> ''90'']) \<and>
   annotations (web None [resourceMetric ResourceCPU None,
                          resourceMetric ResourceCPU (Some 90)])
     = Inl NilPointerDereference"
  by (simp add: web_def annotations_def annotate_def deref_def resourceMetric_def
      ResourceCPU_def ResourceMemory_def Sprintf_d_def decimal.simps)

text \<open>
  Claim C10.  For a key that \<open>SplitMetaNamespaceKey\<close> rejects, \<open>syncHPA\<close> returns
  the split error without touching the controller, and \<open>processNextWorkItem\<close> passes
  it to the retry policy: below the ceiling the key is requeued rate-limited and nothing
  reaches the error sink; only at the ceiling is it forgotten and reported.
\<close>

theorem syncHPA_split_error:
  assumes "SplitMetaNamespaceKey key = Inl err"
  shows "syncHPA v key = Inr (Some err, v) \<and>
    (NumRequeues v key < maxRetries \<longrightarrow>
       processNextWorkItem v (key, False)
         = Inr (True, v\<lparr>failures := (failures v)(key := Suc (failures v key)),
                        trace := trace v @ [AddRateLimitedCall key, DoneCall key]\<rparr>)) \<and>
    (\<not> NumRequeues v key < maxRetries \<longrightarrow>
       processNextWorkItem v (key, False)
         = Inr (True, v\<lparr>failures := (failures v)(key := 0),
                        trace := trace v @ [ForgetCall key, HandleErrorCall err, DoneCall key]\<rparr>))"
  using assms
  by (simp add: syncHPA_def processNextWorkItem_def handleErr_def AddRateLimited_def
      Done_def Forget_def HandleError_def)

theorem syncHPA_split_error_witness:
  "SplitMetaNamespaceKey ''a/b/c'' = Inl (UnexpectedKeyFormat ''a/b/c'') \<and>
   NumRequeues (controller (web None []) None) ''a/b/c'' < maxRetries \<and>
   syncHPA (controller (web None []) None) ''a/b/c''
     = Inr (Some (UnexpectedKeyFormat ''a/b/c''), controller (web None []) None) \<and>
   processNextWorkItem (controller (web None []) None) (''a/b/c'', False)
     = Inr (True, (controller (web None []) None)
              \<lparr>failures := (\<lambda>key. 0)(''a/b/c'' := 1),
                trace := [AddRateLimitedCall ''a/b/c'', DoneCall ''a/b/c'']\<rparr>)"
proof -
  have split: "SplitMetaNamespaceKey ''a/b/c'' = Inl (UnexpectedKeyFormat ''a/b/c'')"
    by (simp add: SplitMetaNamespaceKey_def)
  have few: "NumRequeues (controller (web None []) None) ''a/b/c'' < maxRetries"
    by (simp add: NumRequeues_def controller_def maxRetries_def)
  have f: "failures (controller (web None []) None) = (\<lambda>key. 0)"
    and t: "trace (controller (web None []) None) = []"
    by (simp_all add: controller_def)
  show ?thesis
    using split few syncHPA_split_error [OF split, of "controller (web None []) None"]
    by (simp add: f t)
qed

end
